theory Spec2Isabelle
  imports Complex_Main "HOL-Library.Sublist"
begin

section \<open>Numbers and parsed input\<close>

text \<open>
  Amounts, balances and credits are JavaScript numbers, that is IEEE 754 binary64 values.
  A finite double is modelled by the real number it denotes. \<open>+\<close> and \<open>-\<close> compute
  the exact result and round it to the nearest double, ties to the even significand
  (\<open>rnd\<close>); \<open>Math.min\<close>, \<open>Math.max\<close> and the comparisons are exact. A double
  has a significand of 53 bits, so the last place of \<open>x\<close> has the weight
  \<open>2 ^ (\<lfloor>log\<^sub>2 \<bar>x\<bar>\<rfloor> - 52)\<close>, and never less than \<open>2 ^ - 1074\<close>, the
  spacing of the subnormal numbers. Infinities and results beyond the largest finite
  double are outside the model: the handlers bound what is entered by balances and
  totals, which are finite.
\<close>

definition round_half_even :: "real \<Rightarrow> int" where
  "round_half_even y =
     (let f = \<lfloor>y\<rfloor>; d = y - of_int f
      in if d < 1 / 2 then f else if 1 / 2 < d then f + 1 else if even f then f else f + 1)"

definition ulp_exponent :: "real \<Rightarrow> int" where
  "ulp_exponent x = max (\<lfloor>log 2 \<bar>x\<bar>\<rfloor> - 52) (- 1074)"

definition rnd :: "real \<Rightarrow> real" where
  "rnd x =
     (if x = 0 then 0
      else of_int (round_half_even (x / 2 powr of_int (ulp_exponent x)))
             * 2 powr of_int (ulp_exponent x))"

text \<open>The operators \<open>+\<close> and \<open>-\<close> on numbers.\<close>

definition add64 :: "real \<Rightarrow> real \<Rightarrow> real" where
  "add64 x y = rnd (x + y)"

definition sub64 :: "real \<Rightarrow> real \<Rightarrow> real" where
  "sub64 x y = rnd (x - y)"

text \<open>
  \<open>z\<close> is a finite double: rounding leaves it as it is, and it is below \<open>2 ^ 1024\<close>,
  where the doubles end.
\<close>

definition finite_double :: "real \<Rightarrow> bool" where
  "finite_double z \<longleftrightarrow> rnd z = z \<and> \<bar>z\<bar> < 2 ^ 1024"

text \<open>
  The one non-numeric value the handlers deal with explicitly is the \<open>NaN\<close> that
  \<open>parseFloat\<close> returns for text that does not start with a number, so the result of
  \<open>parseFloat(event.target.value)\<close> is a value of its own type.
\<close>

datatype parsed = NaN | Num real

text \<open>\<open>parseFloat(v) || 0\<close>: \<open>NaN\<close> and \<open>0\<close> are falsy, every other number is kept.\<close>

definition or_zero :: "parsed \<Rightarrow> real" where
  "or_zero p = (case p of NaN \<Rightarrow> 0 | Num v \<Rightarrow> (if v = 0 then 0 else v))"

section \<open>Allocations\<close>

text \<open>The object \<open>{invoiceId, amount, isFullPayment}\<close> stored per selected invoice.\<close>

record allocation =
  invoiceId :: string
  amount :: real
  isFullPayment :: bool

section \<open>AccountPayment (accountPayment.js)\<close>

record AccountPayment =
  accountCredits :: "real list"  \<comment> \<open>the \<open>remainingBalance\<close> of each credit record\<close>
  applyCredits :: bool
  creditAmountToApply :: real
  invoiceAllocations :: "allocation list"
  totalAmount :: real
  invoiceCount :: nat

text \<open>\<open>accountCredits.reduce((sum, c) => sum + c.remainingBalance, 0)\<close>\<close>

definition totalAvailableCredit :: "AccountPayment \<Rightarrow> real" where
  "totalAvailableCredit s = foldl (\<lambda>sum c. add64 sum c) 0 (accountCredits s)"

definition handleApplyCreditsChange :: "AccountPayment \<Rightarrow> bool \<Rightarrow> AccountPayment" where
  "handleApplyCreditsChange s checked =
     (let s1 = s\<lparr>applyCredits := checked\<rparr> in
      if \<not> applyCredits s1 then s1\<lparr>creditAmountToApply := 0\<rparr>
      else s1\<lparr>creditAmountToApply := min (totalAvailableCredit s1) (totalAmount s1)\<rparr>)"

definition handleCreditAmountChange :: "AccountPayment \<Rightarrow> parsed \<Rightarrow> AccountPayment" where
  "handleCreditAmountChange s v =
     s\<lparr>creditAmountToApply :=
         min (min (or_zero v) (totalAvailableCredit s)) (totalAmount s)\<rparr>"

definition amountAfterCredits :: "AccountPayment \<Rightarrow> real" where
  "amountAfterCredits s = max 0 (sub64 (totalAmount s) (creditAmountToApply s))"

text \<open>
  The callback of \<open>invoiceAllocations.map\<close> in \<open>allocationsForPayment\<close> reads and
  assigns the enclosing variable \<open>remainingCredit\<close>; the traversal threads that
  variable through the list from left to right.
\<close>

fun distributeCredit :: "real \<Rightarrow> allocation list \<Rightarrow> allocation list" where
  "distributeCredit remainingCredit [] = []"
| "distributeCredit remainingCredit (alloc # rest) =
     (let creditForInvoice = min remainingCredit (amount alloc)
      in alloc\<lparr>amount := sub64 (amount alloc) creditForInvoice\<rparr>
           # distributeCredit (sub64 remainingCredit creditForInvoice) rest)"

definition allocationsForPayment :: "AccountPayment \<Rightarrow> allocation list" where
  "allocationsForPayment s =
     (if \<not> applyCredits s \<or> creditAmountToApply s \<le> 0 then invoiceAllocations s
      else filter (\<lambda>alloc. amount alloc > 0)
             (distributeCredit (creditAmountToApply s) (invoiceAllocations s)))"

text \<open>
  The state in which the distributor is asked to apply credit \<open>C\<close> to the allocation
  sequence \<open>A\<close>: credits enabled, \<open>creditAmountToApply = C\<close>,
  \<open>invoiceAllocations = A\<close>. The remaining fields do not enter
  \<open>allocationsForPayment\<close>.
\<close>

definition creditState :: "allocation list \<Rightarrow> real \<Rightarrow> AccountPayment" where
  "creditState A C =
     \<lparr>accountCredits = [], applyCredits = True, creditAmountToApply = C,
      invoiceAllocations = A, totalAmount = 0, invoiceCount = length A\<rparr>"

text \<open>
  The walk as the specification words it, position by position: the remaining-credit
  counter on reaching position \<open>i\<close> starts at \<open>creditToApply\<close> and loses, at every
  earlier position, the credit consumed there; the credit consumed at a position is the
  smaller of the counter and that allocation's amount. The subtraction is that of the
  program's numbers.
\<close>

fun remainingBefore :: "real \<Rightarrow> allocation list \<Rightarrow> nat \<Rightarrow> real" where
  "remainingBefore creditToApply A 0 = creditToApply"
| "remainingBefore creditToApply A (Suc i) =
     sub64 (remainingBefore creditToApply A i)
       (min (remainingBefore creditToApply A i) (amount (A ! i)))"

definition creditConsumed :: "real \<Rightarrow> allocation list \<Rightarrow> nat \<Rightarrow> real" where
  "creditConsumed creditToApply A i = min (remainingBefore creditToApply A i) (amount (A ! i))"

text \<open>
  \<open>applyCredit\<close> in the specification's words: every allocation, in the given
  order, loses the credit consumed at its position, and the allocations left without a
  positive amount are dropped.
\<close>

definition applyCredit :: "allocation list \<Rightarrow> real \<Rightarrow> allocation list" where
  "applyCredit A creditToApply =
     filter (\<lambda>alloc. amount alloc > 0)
       (map (\<lambda>i. (A ! i)\<lparr>amount := sub64 (amount (A ! i)) (creditConsumed creditToApply A i)\<rparr>)
          [0..<length A])"

text \<open>What an allocation keeps through credit distribution: everything but the amount.\<close>

definition frame :: "allocation \<Rightarrow> string \<times> bool" where
  "frame alloc = (invoiceId alloc, isFullPayment alloc)"

text \<open>
  No subtraction of the walk is rounded: at every allocation, the exact differences that
  give the new amount and the new remaining credit are finite doubles.
\<close>

fun exactWalk :: "real \<Rightarrow> allocation list \<Rightarrow> bool" where
  "exactWalk remainingCredit [] = True"
| "exactWalk remainingCredit (alloc # rest) =
     (let creditForInvoice = min remainingCredit (amount alloc)
      in finite_double (amount alloc - creditForInvoice)
         \<and> finite_double (remainingCredit - creditForInvoice)
         \<and> exactWalk (sub64 remainingCredit creditForInvoice) rest)"

text \<open>
  No addition of a left-to-right sum that starts from \<open>acc\<close> is rounded: every exact
  partial sum is a finite double.
\<close>

fun exactSum :: "real \<Rightarrow> real list \<Rightarrow> bool" where
  "exactSum acc [] = True"
| "exactSum acc (x # xs) = (finite_double (acc + x) \<and> exactSum (add64 acc x) xs)"

section \<open>InvoicePayment (single-invoice flow)\<close>

text \<open>
  \<open>wiredBalance\<close> is \<open>getFieldValue(this.invoice.data, INVOICE_BALANCE)\<close>, which is
  undefined until the record is delivered.
\<close>

record InvoicePayment =
  wiredBalance :: "real option"
  singlePaymentType :: string
  partialAmount :: real

text \<open>The getter \<open>balanceDue\<close>: \<open>getFieldValue(...) || 0\<close>.\<close>

definition InvoicePayment_balanceDue :: "InvoicePayment \<Rightarrow> real" where
  "InvoicePayment_balanceDue s =
     (case wiredBalance s of None \<Rightarrow> 0 | Some v \<Rightarrow> (if v = 0 then 0 else v))"

definition InvoicePayment_paymentAmount :: "InvoicePayment \<Rightarrow> real" where
  "InvoicePayment_paymentAmount s =
     (if singlePaymentType s = ''full'' then InvoicePayment_balanceDue s else partialAmount s)"

definition InvoicePayment_canSubmit :: "InvoicePayment \<Rightarrow> bool" where
  "InvoicePayment_canSubmit s =
     (if InvoicePayment_balanceDue s \<le> 0 then False
      else if singlePaymentType s = ''partial'' \<and> partialAmount s \<le> 0 then False
      else True)"

definition InvoicePayment_handlePaymentTypeChange :: "InvoicePayment \<Rightarrow> string \<Rightarrow> InvoicePayment" where
  "InvoicePayment_handlePaymentTypeChange s v =
     (let s1 = s\<lparr>singlePaymentType := v\<rparr> in
      if singlePaymentType s1 = ''full'' then s1\<lparr>partialAmount := 0\<rparr>
      else s1\<lparr>partialAmount := InvoicePayment_balanceDue s1\<rparr>)"

definition InvoicePayment_handlePartialAmountChange :: "InvoicePayment \<Rightarrow> parsed \<Rightarrow> InvoicePayment" where
  "InvoicePayment_handlePartialAmountChange s v =
     s\<lparr>partialAmount := min (or_zero v) (InvoicePayment_balanceDue s)\<rparr>"

section \<open>InvoiceSelector (multi-invoice flow)\<close>

subsection \<open>The insertion-ordered \<open>Map\<close>\<close>

text \<open>
  A JavaScript \<open>Map\<close> keeps its entries in insertion order, \<open>set\<close> on a present key
  replaces the value where the entry stands, \<open>set\<close> on an absent key appends, and
  \<open>delete\<close> removes the entry. It is an association list here, oldest entry first.
\<close>

type_synonym 'v jsmap = "(string \<times> 'v) list"

definition Map_has :: "string \<Rightarrow> 'v jsmap \<Rightarrow> bool" where
  "Map_has k m = (k \<in> set (map fst m))"

fun Map_set :: "string \<Rightarrow> 'v \<Rightarrow> 'v jsmap \<Rightarrow> 'v jsmap" where
  "Map_set k v [] = [(k, v)]"
| "Map_set k v (e # m) = (if fst e = k then (k, v) # m else e # Map_set k v m)"

definition Map_delete :: "string \<Rightarrow> 'v jsmap \<Rightarrow> 'v jsmap" where
  "Map_delete k m = filter (\<lambda>e. fst e \<noteq> k) m"

definition Map_values :: "'v jsmap \<Rightarrow> 'v list" where
  "Map_values m = map snd m"

definition Map_size :: "'v jsmap \<Rightarrow> nat" where
  "Map_size m = length m"

subsection \<open>Component state and handlers\<close>

text \<open>The fields of an invoice row that the handlers read or write.\<close>

record invoice =
  id' :: string
  balanceDue :: real
  selected :: bool
  paymentType :: string
  paymentAmount :: real

record InvoiceSelector =
  invoices :: "invoice list"
  selectedInvoices :: "allocation jsmap"

text \<open>The \<open>detail\<close> of the \<open>selectionchange\<close> event.\<close>

record selectionchange =
  allocations :: "allocation list"
  detail_totalAmount :: real
  detail_invoiceCount :: nat

datatype js_error = TypeError

definition notifySelectionChange :: "InvoiceSelector \<Rightarrow> selectionchange" where
  "notifySelectionChange s =
     (let allocs = Map_values (selectedInvoices s);
          total = foldl (\<lambda>sum a. add64 sum (amount a)) 0 allocs
      in \<lparr>allocations = allocs, detail_totalAmount = total,
          detail_invoiceCount = length allocs\<rparr>)"

text \<open>
  The parent component's listener, \<open>handleInvoiceSelectionChange\<close> of AccountPayment,
  copies the event's detail into its own state.
\<close>

definition handleInvoiceSelectionChange :: "AccountPayment \<Rightarrow> selectionchange \<Rightarrow> AccountPayment" where
  "handleInvoiceSelectionChange s detail =
     s\<lparr>invoiceAllocations := allocations detail,
       totalAmount := detail_totalAmount detail,
       invoiceCount := detail_invoiceCount detail\<rparr>"

text \<open>
  \<open>handleInvoiceSelect\<close>: when \<open>checked\<close>, \<open>this.invoices.find(...)\<close> is undefined
  for an id that no row carries and reading \<open>invoice.balanceDue\<close> throws; nothing has
  been written to the map or dispatched at that point.
\<close>

definition handleInvoiceSelect ::
  "InvoiceSelector \<Rightarrow> string \<Rightarrow> bool \<Rightarrow> js_error + InvoiceSelector \<times> selectionchange" where
  "handleInvoiceSelect s invoiceId' checked =
     (let s1 = s\<lparr>invoices :=
                   map (\<lambda>inv'. if id' inv' = invoiceId' then inv'\<lparr>selected := checked\<rparr> else inv')
                     (invoices s)\<rparr>
      in if checked then
           (case find (\<lambda>i. id' i = invoiceId') (invoices s1) of
              None \<Rightarrow> Inl TypeError
            | Some invoice \<Rightarrow>
                (let s2 = s1\<lparr>selectedInvoices :=
                               Map_set invoiceId'
                                 \<lparr>invoiceId = invoiceId', amount = balanceDue invoice,
                                  isFullPayment = True\<rparr>
                                 (selectedInvoices s1)\<rparr>
                 in Inr (s2, notifySelectionChange s2)))
         else
           (let s2 = s1\<lparr>selectedInvoices := Map_delete invoiceId' (selectedInvoices s1)\<rparr>
            in Inr (s2, notifySelectionChange s2)))"

text \<open>
  \<open>handlePartialAmountChange\<close>: the callback of \<open>this.invoices.map\<close> writes to
  \<open>this.selectedInvoices\<close> as it goes, so the traversal carries the map along.
\<close>

definition validAmount :: "real \<Rightarrow> invoice \<Rightarrow> real" where
  "validAmount amount' inv' = min (max 0 amount') (balanceDue inv')"

fun partialAmountRows ::
  "string \<Rightarrow> real \<Rightarrow> invoice list \<Rightarrow> allocation jsmap \<Rightarrow> invoice list \<times> allocation jsmap" where
  "partialAmountRows invoiceId' amount' [] sel = ([], sel)"
| "partialAmountRows invoiceId' amount' (inv' # rest) sel =
     (if id' inv' = invoiceId' then
        (let sel1 = (if Map_has invoiceId' sel
                     then Map_set invoiceId'
                            \<lparr>invoiceId = invoiceId', amount = validAmount amount' inv',
                             isFullPayment = False\<rparr> sel
                     else sel);
             (rest', sel2) = partialAmountRows invoiceId' amount' rest sel1
         in (inv'\<lparr>paymentAmount := validAmount amount' inv'\<rparr> # rest', sel2))
      else
        (let (rest', sel2) = partialAmountRows invoiceId' amount' rest sel
         in (inv' # rest', sel2)))"

definition InvoiceSelector_handlePartialAmountChange ::
  "InvoiceSelector \<Rightarrow> string \<Rightarrow> parsed \<Rightarrow> InvoiceSelector \<times> selectionchange" where
  "InvoiceSelector_handlePartialAmountChange s invoiceId' v =
     (let amount' = or_zero v;
          (rows, sel) = partialAmountRows invoiceId' amount' (invoices s) (selectedInvoices s);
          s1 = s\<lparr>invoices := rows, selectedInvoices := sel\<rparr>
      in (s1, notifySelectionChange s1))"

text \<open>
  A select event followed by a deselect event for the same invoice; an exception in the
  first handler ends the sequence.
\<close>

definition selectThenDeselect ::
  "InvoiceSelector \<Rightarrow> string \<Rightarrow> js_error + InvoiceSelector \<times> selectionchange" where
  "selectThenDeselect s invoiceId' =
     (case handleInvoiceSelect s invoiceId' True of
        Inl e \<Rightarrow> Inl e
      | Inr (s1, ev) \<Rightarrow> handleInvoiceSelect s1 invoiceId' False)"

section \<open>Example inputs\<close>

text \<open>The allocations of the specification's order-sensitivity example.\<close>

definition orderExample :: "allocation list" where
  "orderExample = [\<lparr>invoiceId = ''inv1'', amount = 100, isFullPayment = True\<rparr>,
                   \<lparr>invoiceId = ''inv2'', amount = 50, isFullPayment = False\<rparr>]"

text \<open>The allocations of the specification's scenario: invA in full, invB partial at 30.\<close>

definition scenarioExample :: "allocation list" where
  "scenarioExample = [\<lparr>invoiceId = ''invA'', amount = 200, isFullPayment = True\<rparr>,
                      \<lparr>invoiceId = ''invB'', amount = 30, isFullPayment = False\<rparr>]"

text \<open>
  Three allocations of 0.01, 0.01 and 0.02, each the double nearest to the decimal, as
  the selector emits them for three invoices with these balances.
\<close>

definition centsExample :: "allocation list" where
  "centsExample = [\<lparr>invoiceId = ''i0'', amount = rnd (1 / 100), isFullPayment = True\<rparr>,
                   \<lparr>invoiceId = ''i1'', amount = rnd (1 / 100), isFullPayment = True\<rparr>,
                   \<lparr>invoiceId = ''i2'', amount = rnd (2 / 100), isFullPayment = True\<rparr>]"

text \<open>The credit 0.04, as a double.\<close>

definition fourCents :: real where
  "fourCents = rnd (4 / 100)"

text \<open>A selection map with the amounts 0.1 and 0.2.\<close>

definition tenthsExample :: InvoiceSelector where
  "tenthsExample =
     \<lparr>invoices = [],
      selectedInvoices =
        [(''i0'', \<lparr>invoiceId = ''i0'', amount = rnd (1 / 10), isFullPayment = True\<rparr>),
         (''i1'', \<lparr>invoiceId = ''i1'', amount = rnd (2 / 10), isFullPayment = False\<rparr>)]\<rparr>"

text \<open>The selection map of the specification's scenario.\<close>

definition scenarioSelector :: InvoiceSelector where
  "scenarioSelector =
     \<lparr>invoices = [],
      selectedInvoices = map (\<lambda>a. (invoiceId a, a)) scenarioExample\<rparr>"

text \<open>A selector with two rows, the first selected in full.\<close>

definition selectorExample :: InvoiceSelector where
  "selectorExample =
     \<lparr>invoices = [\<lparr>id' = ''inv1'', balanceDue = 100, selected = True,
                   paymentType = ''full'', paymentAmount = 100\<rparr>,
                  \<lparr>id' = ''inv2'', balanceDue = 50, selected = False,
                   paymentType = ''full'', paymentAmount = 50\<rparr>],
      selectedInvoices =
        [(''inv1'', \<lparr>invoiceId = ''inv1'', amount = 100, isFullPayment = True\<rparr>)]\<rparr>"

section \<open>Auxiliary facts\<close>

subsection \<open>Rounding\<close>

lemma rnd_zero: "rnd 0 = 0"
  by (simp add: rnd_def)

lemma sub64_self: "sub64 x x = 0"
  by (simp add: sub64_def rnd_zero)

lemma round_half_even_of_int: "round_half_even (of_int m) = m"
  by (simp add: round_half_even_def)

lemma round_half_even_nonneg: "0 \<le> y \<Longrightarrow> 0 \<le> round_half_even y"
  by (simp add: round_half_even_def Let_def)

lemma rnd_nonneg: "0 \<le> x \<Longrightarrow> 0 \<le> rnd x"
  by (simp add: rnd_def round_half_even_nonneg)

text \<open>The value of \<open>rnd\<close> once the binade of the argument is known.\<close>

lemma rnd_at:
  assumes e: "- 1074 \<le> e"
    and lo: "2 powr of_int (e + 52) \<le> \<bar>x\<bar>"
    and hi: "\<bar>x\<bar> < 2 powr of_int (e + 53)"
  shows "rnd x = of_int (round_half_even (x / 2 powr of_int e)) * 2 powr of_int e"
proof -
  have pos: "0 < \<bar>x\<bar>" using lo by (smt (verit) powr_gt_zero)
  have "\<lfloor>log 2 \<bar>x\<bar>\<rfloor> = e + 52"
    using lo hi floor_log_eq_powr_iff [of "\<bar>x\<bar>" 2 "e + 52"] pos by (simp add: add.commute add.assoc)
  then have "ulp_exponent x = e" using e by (simp add: ulp_exponent_def)
  moreover have "x \<noteq> 0" using pos by simp
  ultimately show ?thesis by (simp add: rnd_def)
qed

lemma rnd_eval:
  assumes "- 1074 \<le> e"
    and "2 powr of_int (e + 52) \<le> \<bar>x\<bar>"
    and "\<bar>x\<bar> < 2 powr of_int (e + 53)"
    and "round_half_even (x / 2 powr of_int e) = m"
    and "of_int m * 2 powr of_int e = y"
  shows "rnd x = y"
  using rnd_at [OF assms(1,2,3)] assms(4,5) by simp

text \<open>Whole numbers below \<open>2 ^ 53\<close> are doubles.\<close>

lemma rnd_of_nat:
  assumes "n < 2 ^ 53"
  shows "rnd (of_nat n) = of_nat n"
proof (cases "n = 0")
  case True
  then show ?thesis by (simp add: rnd_zero)
next
  case False
  define k where "k = nat \<lfloor>log 2 (real n)\<rfloor>"
  have n1: "1 \<le> real n" using False by simp
  have "0 \<le> log 2 (real n)" using n1 by simp
  then have fl: "\<lfloor>log 2 (real n)\<rfloor> = int k" by (simp add: k_def)
  have bounds: "2 ^ k \<le> n \<and> n < 2 ^ (k + 1)"
    using floor_log_nat_eq_powr_iff [of 2 n k] False fl by simp
  have k52: "k \<le> 52"
  proof (rule ccontr)
    assume "\<not> k \<le> 52"
    then have "53 \<le> k" by simp
    then have "(2::nat) ^ 53 \<le> 2 ^ k" by (intro power_increasing) simp_all
    then show False using bounds assms by simp
  qed
  let ?e = "int k - 52"
  have split: "(2::real) ^ 52 = 2 ^ k * 2 ^ (52 - k)"
    using k52 by (simp add: power_add [symmetric])
  have p: "(2::real) powr of_int ?e = 2 ^ k / 2 ^ 52"
    by (simp add: powr_diff powr_realpow)
  have lo: "2 powr of_int (?e + 52) \<le> \<bar>real n\<bar>"
  proof -
    have "(2::real) ^ k \<le> real n"
      using bounds by (metis of_nat_le_iff of_nat_numeral of_nat_power)
    then show ?thesis by (simp add: powr_realpow)
  qed
  have hi: "\<bar>real n\<bar> < 2 powr of_int (?e + 53)"
  proof -
    have "real n < 2 ^ (k + 1)"
      using bounds by (metis of_nat_less_iff of_nat_numeral of_nat_power)
    moreover have "2 powr of_int (?e + 53) = (2::real) ^ (k + 1)"
      using powr_realpow [of 2 "k + 1"] by (simp add: add.commute)
    ultimately show ?thesis by simp
  qed
  have e: "- 1074 \<le> ?e" by simp
  have q: "real n / (2 ^ k / 2 ^ 52) = of_int (int n * 2 ^ (52 - k))"
    using split by (simp add: field_simps)
  have "rnd (real n) = of_int (round_half_even (real n / 2 powr of_int ?e)) * 2 powr of_int ?e"
    by (rule rnd_at [OF e lo hi])
  also have "\<dots> = of_int (int n * 2 ^ (52 - k)) * (2 ^ k / 2 ^ 52)"
    by (simp only: p q round_half_even_of_int)
  also have "\<dots> = real n"
    using split by (simp add: field_simps)
  finally show ?thesis .
qed

lemma rnd_numeral: "(numeral w :: nat) < 2 ^ 53 \<Longrightarrow> rnd (numeral w) = numeral w"
  using rnd_of_nat [of "numeral w"] by simp

subsection \<open>Sums and the credit walk\<close>

lemma sub64_exact: "finite_double (x - y) \<Longrightarrow> sub64 x y = x - y"
  by (simp add: finite_double_def sub64_def)

lemma add64_exact: "finite_double (x + y) \<Longrightarrow> add64 x y = x + y"
  by (simp add: finite_double_def add64_def)

lemma finite_double_of_nat:
  assumes "n < 2 ^ 53"
  shows "finite_double (of_nat n)"
proof -
  have "real n < real (2 ^ 53)" using assms by (simp only: of_nat_less_iff)
  then have "real n < 2 ^ 53" by simp
  moreover have "(2::real) ^ 53 \<le> 2 ^ 1024" by (intro power_increasing) simp_all
  ultimately have "\<bar>real n\<bar> < 2 ^ 1024" by simp
  then show ?thesis using rnd_of_nat [OF assms] by (simp only: finite_double_def)
qed

lemma finite_double_numeral:
  "(numeral w :: nat) < 2 ^ 53 \<Longrightarrow> finite_double (numeral w)"
  using finite_double_of_nat [of "numeral w"] by simp

lemma finite_double_zero: "finite_double 0"
  by (simp add: finite_double_def rnd_zero)

lemma foldl_amount_sum:
  "exactSum acc (map amount xs) \<Longrightarrow>
   foldl (\<lambda>sum a. add64 sum (amount a)) acc xs = acc + sum_list (map amount xs)"
  by (induction xs arbitrary: acc) (auto simp: add64_exact)

lemma distributeCredit_length: "length (distributeCredit rc A) = length A"
  by (induction A arbitrary: rc) (auto simp: Let_def)

lemma distributeCredit_frame: "map frame (distributeCredit rc A) = map frame A"
  by (induction A arbitrary: rc) (auto simp: Let_def frame_def)

lemma sub64_min_nonneg: "0 \<le> sub64 x (min rc x)"
  unfolding sub64_def by (rule rnd_nonneg) simp

lemma distributeCredit_nonneg: "b \<in> set (distributeCredit rc A) \<Longrightarrow> 0 \<le> amount b"
  by (induction A arbitrary: rc) (auto simp: Let_def sub64_min_nonneg)

lemma sum_filter_positive:
  "(\<And>b. b \<in> set xs \<Longrightarrow> 0 \<le> amount b) \<Longrightarrow>
   sum_list (map amount (filter (\<lambda>a. amount a > 0) xs)) = sum_list (map amount xs)"
proof (induction xs)
  case Nil
  then show ?case by simp
next
  case (Cons x xs)
  have "0 \<le> amount x" using Cons.prems by simp
  moreover have "sum_list (map amount (filter (\<lambda>a. amount a > 0) xs)) = sum_list (map amount xs)"
    using Cons by simp
  ultimately show ?case by auto
qed

lemma sum_amount_nonneg:
  "(\<And>a. a \<in> set A \<Longrightarrow> 0 \<le> amount a) \<Longrightarrow> 0 \<le> sum_list (map amount A)"
  by (induction A) (auto intro: add_nonneg_nonneg)

lemma distributeCredit_sum:
  "exactWalk rc A \<Longrightarrow> 0 \<le> rc \<Longrightarrow> (\<And>a. a \<in> set A \<Longrightarrow> 0 \<le> amount a) \<Longrightarrow>
   sum_list (map amount (distributeCredit rc A))
     = sum_list (map amount A) - min rc (sum_list (map amount A))"
proof (induction A arbitrary: rc)
  case Nil
  then show ?case by simp
next
  case (Cons a A)
  let ?S = "sum_list (map amount A)"
  let ?c = "min rc (amount a)"
  have a0: "0 \<le> amount a" using Cons.prems(3) by simp
  have s0: "0 \<le> ?S" using Cons.prems(3) by (simp add: sum_amount_nonneg)
  have w: "finite_double (amount a - ?c) \<and> finite_double (rc - ?c)
             \<and> exactWalk (sub64 rc ?c) A"
    using Cons.prems(1) unfolding exactWalk.simps Let_def .
  have x1: "sub64 (amount a) ?c = amount a - ?c" using w by (simp add: sub64_exact)
  have x2: "sub64 rc ?c = rc - ?c" using w by (simp add: sub64_exact)
  have x3': "exactWalk (sub64 rc ?c) A" using w by blast
  have x3: "exactWalk (rc - ?c) A" using x3' x2 by simp
  have step: "sum_list (map amount (distributeCredit rc (a # A)))
                = (amount a - ?c) + sum_list (map amount (distributeCredit (rc - ?c) A))"
    by (simp add: Let_def x1 x2)
  show ?case
  proof (cases "rc \<le> amount a")
    case True
    then have c: "?c = rc" by simp
    have "sum_list (map amount (distributeCredit 0 A)) = ?S - min 0 ?S"
      using Cons.IH [of 0] x3 c Cons.prems(3) by simp
    then have "sum_list (map amount (distributeCredit 0 A)) = ?S" using s0 by simp
    moreover have "min rc (amount a + ?S) = rc" using True s0 by simp
    ultimately show ?thesis using step c by simp
  next
    case False
    then have c: "?c = amount a" by simp
    have rc': "0 \<le> rc - amount a" using False by simp
    have "sum_list (map amount (distributeCredit (rc - amount a) A)) = ?S - min (rc - amount a) ?S"
      using Cons.IH [OF _ rc'] x3 c Cons.prems(3) by simp
    moreover have "min rc (amount a + ?S) = amount a + min (rc - amount a) ?S" by (simp add: min_def)
    ultimately show ?thesis using step c by simp
  qed
qed

lemma distributeCredit_covered:
  "exactWalk rc A \<Longrightarrow> (\<And>a. a \<in> set A \<Longrightarrow> 0 \<le> amount a) \<Longrightarrow>
   sum_list (map amount A) \<le> rc \<Longrightarrow> b \<in> set (distributeCredit rc A) \<Longrightarrow> amount b = 0"
proof (induction A arbitrary: rc)
  case Nil
  then show ?case by simp
next
  case (Cons a A)
  have s0: "0 \<le> sum_list (map amount A)" using Cons.prems(2) by (simp add: sum_amount_nonneg)
  have le: "min rc (amount a) = amount a" using Cons.prems(3) s0 by simp
  have w: "finite_double (amount a - min rc (amount a))
             \<and> finite_double (rc - min rc (amount a))
             \<and> exactWalk (sub64 rc (min rc (amount a))) A"
    using Cons.prems(1) unfolding exactWalk.simps Let_def .
  have x2: "sub64 rc (amount a) = rc - amount a" using w le by (simp add: sub64_exact)
  have x3': "exactWalk (sub64 rc (amount a)) A" using w le by metis
  have x3: "exactWalk (rc - amount a) A" using x3' x2 by simp
  have rest: "sum_list (map amount A) \<le> rc - amount a" using Cons.prems(3) by simp
  from Cons.prems(4) le x2
  have "b = a\<lparr>amount := 0\<rparr> \<or> b \<in> set (distributeCredit (rc - amount a) A)"
    by (simp add: Let_def sub64_self)
  then show ?case
  proof
    assume "b = a\<lparr>amount := 0\<rparr>"
    then show ?thesis by simp
  next
    assume "b \<in> set (distributeCredit (rc - amount a) A)"
    then show ?thesis using Cons.IH [OF x3 _ rest] Cons.prems(2) by simp
  qed
qed

text \<open>
  Whole amounts and a whole credit below \<open>2 ^ 53\<close> are walked without rounding.
\<close>

lemma whole_difference:
  assumes "x \<in> \<nat>" and "y \<in> \<nat>" and "y \<le> x" and "x < 2 ^ 53"
  shows "finite_double (x - y) \<and> x - y \<in> \<nat> \<and> x - y < 2 ^ 53"
proof -
  obtain m where m: "x = real m" using assms(1) by (auto elim: Nats_cases)
  obtain n where n: "y = real n" using assms(2) by (auto elim: Nats_cases)
  have nm: "n \<le> m" using assms(3) m n by simp
  have d: "x - y = real (m - n)" using m n nm by (simp add: of_nat_diff)
  have "real m < real (2 ^ 53)" using assms(4) m by simp
  then have "m < 2 ^ 53" by (simp only: of_nat_less_iff)
  then have lt: "m - n < 2 ^ 53" by simp
  have "finite_double (real (m - n))" by (rule finite_double_of_nat [OF lt])
  moreover have "real (m - n) < 2 ^ 53" using assms(3,4) d m n by linarith
  ultimately show ?thesis unfolding d by simp
qed

lemma exactWalk_whole:
  "rc \<in> \<nat> \<Longrightarrow> rc < 2 ^ 53 \<Longrightarrow>
   (\<And>a. a \<in> set A \<Longrightarrow> amount a \<in> \<nat> \<and> amount a < 2 ^ 53) \<Longrightarrow> exactWalk rc A"
proof (induction A arbitrary: rc)
  case Nil
  then show ?case by simp
next
  case (Cons a A)
  let ?c = "min rc (amount a)"
  have a: "amount a \<in> \<nat>" "amount a < 2 ^ 53" using Cons.prems(3) by simp_all
  have c: "?c \<in> \<nat>" using Cons.prems(1) a(1) by (simp add: min_def)
  have d1: "finite_double (amount a - ?c)"
    using whole_difference [OF a(1) c _ a(2)] by simp
  have d2: "finite_double (rc - ?c) \<and> rc - ?c \<in> \<nat> \<and> rc - ?c < 2 ^ 53"
    using whole_difference [OF Cons.prems(1) c _ Cons.prems(2)] by simp
  have eq: "sub64 rc ?c = rc - ?c" using d2 by (simp add: sub64_exact)
  have "exactWalk (rc - ?c) A"
    using Cons.IH [of "rc - ?c"] d2 Cons.prems(3) by simp
  then show ?case using d1 d2 eq by (simp add: Let_def)
qed

lemma remainingBefore_Cons:
  "remainingBefore C (a # A) (Suc i) = remainingBefore (sub64 C (min C (amount a))) A i"
  by (induction i) simp_all

lemma creditConsumed_Cons:
  "creditConsumed C (a # A) (Suc i) = creditConsumed (sub64 C (min C (amount a))) A i"
  unfolding creditConsumed_def by (simp only: remainingBefore_Cons nth_Cons_Suc)

lemma distributeCredit_nth:
  "i < length A \<Longrightarrow>
   distributeCredit C A ! i
     = (A ! i)\<lparr>amount := sub64 (amount (A ! i)) (creditConsumed C A i)\<rparr>"
proof (induction A arbitrary: C i)
  case Nil
  then show ?case by simp
next
  case (Cons a A)
  show ?case
  proof (cases i)
    case 0
    then show ?thesis by (simp add: Let_def creditConsumed_def)
  next
    case (Suc k)
    then have "k < length A" using Cons.prems by simp
    then show ?thesis using Suc Cons.IH [of k "sub64 C (min C (amount a))"]
      by (simp add: Let_def creditConsumed_Cons)
  qed
qed

lemma distributeCredit_walk:
  "distributeCredit C A =
   map (\<lambda>i. (A ! i)\<lparr>amount := sub64 (amount (A ! i)) (creditConsumed C A i)\<rparr>) [0..<length A]"
  by (rule nth_equalityI) (simp_all add: distributeCredit_length distributeCredit_nth)

lemma remainingBefore_exhausted:
  "remainingBefore C A i = 0 \<Longrightarrow> i \<le> k \<Longrightarrow> k \<le> length A \<Longrightarrow>
   (\<And>a. a \<in> set A \<Longrightarrow> 0 \<le> amount a) \<Longrightarrow> remainingBefore C A k = 0"
proof (induction k)
  case 0
  then show ?case by simp
next
  case (Suc k)
  show ?case
  proof (cases "i = Suc k")
    case True
    then show ?thesis using Suc.prems(1) by simp
  next
    case False
    then have ik: "i \<le> k" using Suc.prems(2) by simp
    have kl: "k < length A" using Suc.prems(3) by simp
    then have "0 \<le> amount (A ! k)" using Suc.prems(4) by simp
    moreover have "remainingBefore C A k = 0" using Suc.IH [OF Suc.prems(1) ik] kl Suc.prems(4) by simp
    ultimately show ?thesis by (simp add: sub64_self)
  qed
qed

lemma greedy_first_come:
  assumes C: "0 \<le> C" and A: "\<And>a. a \<in> set A \<Longrightarrow> 0 \<le> amount a"
    and ij: "i < j" and j: "j < length A" and pos: "0 < creditConsumed C A j"
  shows "creditConsumed C A i = amount (A ! i)"
proof (rule ccontr)
  assume neq: "creditConsumed C A i \<noteq> amount (A ! i)"
  then have "remainingBefore C A i < amount (A ! i)"
    by (simp add: creditConsumed_def min_def split: if_splits)
  then have "min (remainingBefore C A i) (amount (A ! i)) = remainingBefore C A i" by simp
  then have "remainingBefore C A (Suc i) = 0" by (simp add: sub64_self)
  then have "remainingBefore C A j = 0"
    using remainingBefore_exhausted [of C A "Suc i" j] ij j A by simp
  moreover have "0 \<le> amount (A ! j)" using A j by simp
  ultimately have "creditConsumed C A j = 0" by (simp add: creditConsumed_def)
  then show False using pos by simp
qed

lemma Map_delete_set_absent: "\<not> Map_has k m \<Longrightarrow> Map_delete k (Map_set k v m) = m"
  by (induction m) (auto simp: Map_has_def Map_delete_def)

lemma Map_has_delete: "\<not> Map_has k (Map_delete k m)"
  by (auto simp: Map_has_def Map_delete_def)

lemma find_listed:
  "i \<in> set (map id' rows) \<Longrightarrow>
   \<exists>r. find (\<lambda>r. id' r = i) (map (\<lambda>r. if id' r = i then r\<lparr>selected := c\<rparr> else r) rows) = Some r"
  by (cases "find (\<lambda>r. id' r = i) (map (\<lambda>r. if id' r = i then r\<lparr>selected := c\<rparr> else r) rows)")
     (auto simp: find_None_iff)

lemma distributeCredit_member:
  "b \<in> set (distributeCredit rc A) \<Longrightarrow> \<exists>a \<in> set A. b = a\<lparr>amount := amount b\<rparr>"
  by (induction A arbitrary: rc) (auto simp: Let_def)

subsection \<open>The walk on 0.01, 0.01, 0.02 with credit 0.04, and the sum of 0.1 and 0.2\<close>

lemma rnd_cent: "rnd (1 / 100) = 5764607523034235 / 2 ^ 59"
  by (rule rnd_eval [where e = "- 59" and m = 5764607523034235])
     (simp_all add: powr_minus_divide round_half_even_def)

lemma rnd_two_cents: "rnd (2 / 100) = 5764607523034235 / 2 ^ 58"
  by (rule rnd_eval [where e = "- 58" and m = 5764607523034235])
     (simp_all add: powr_minus_divide round_half_even_def)

lemma rnd_four_cents: "rnd (4 / 100) = 5764607523034235 / 2 ^ 57"
  by (rule rnd_eval [where e = "- 57" and m = 5764607523034235])
     (simp_all add: powr_minus_divide round_half_even_def)

lemma cents_step1:
  "sub64 (5764607523034235 / 2 ^ 57) (5764607523034235 / 2 ^ 59) = 8646911284551352 / 2 ^ 58"
  unfolding sub64_def
  by (rule rnd_eval [where e = "- 58" and m = 8646911284551352])
     (simp_all add: powr_minus_divide round_half_even_def)

lemma cents_step2:
  "sub64 (8646911284551352 / 2 ^ 58) (5764607523034235 / 2 ^ 59) = 5764607523034234 / 2 ^ 58"
  unfolding sub64_def
  by (rule rnd_eval [where e = "- 58" and m = 5764607523034234])
     (simp_all add: powr_minus_divide round_half_even_def)

lemma cents_step3:
  "sub64 (5764607523034235 / 2 ^ 58) (5764607523034234 / 2 ^ 58) = 1 / 2 ^ 58"
  unfolding sub64_def
  by (rule rnd_eval [where e = "- 110" and m = "2 ^ 52"])
     (simp_all add: powr_minus_divide round_half_even_def)

lemma rnd_tenth: "rnd (1 / 10) = 3602879701896397 / 2 ^ 55"
  by (rule rnd_eval [where e = "- 56" and m = 7205759403792794])
     (simp_all add: powr_minus_divide round_half_even_def)

lemma rnd_two_tenths: "rnd (2 / 10) = 3602879701896397 / 2 ^ 54"
  by (rule rnd_eval [where e = "- 55" and m = 7205759403792794])
     (simp_all add: powr_minus_divide round_half_even_def)

lemma tenths_step1: "add64 0 (3602879701896397 / 2 ^ 55) = 3602879701896397 / 2 ^ 55"
  unfolding add64_def
  by (rule rnd_eval [where e = "- 56" and m = 7205759403792794])
     (simp_all add: powr_minus_divide round_half_even_def)

lemma tenths_step2:
  "add64 (3602879701896397 / 2 ^ 55) (3602879701896397 / 2 ^ 54) = 1351079888211149 / 2 ^ 52"
  unfolding add64_def
  by (rule rnd_eval [where e = "- 54" and m = 5404319552844596])
     (simp_all add: powr_minus_divide round_half_even_def)

lemma fourCents_value: "fourCents = 5764607523034235 / 2 ^ 57"
  unfolding fourCents_def by (rule rnd_four_cents)

lemma cents_sum: "sum_list (map amount centsExample) = 5764607523034235 / 2 ^ 57"
  unfolding centsExample_def rnd_cent rnd_two_cents by simp

lemma cents_walk:
  "allocationsForPayment (creditState centsExample fourCents)
   = [\<lparr>invoiceId = ''i2'', amount = 1 / 2 ^ 58, isFullPayment = True\<rparr>]"
proof -
  have m1: "min (5764607523034235 / 2 ^ 57) (5764607523034235 / 2 ^ 59 :: real)
              = 5764607523034235 / 2 ^ 59" by simp
  have m2: "min (8646911284551352 / 2 ^ 58) (5764607523034235 / 2 ^ 59 :: real)
              = 5764607523034235 / 2 ^ 59" by simp
  have m3: "min (5764607523034234 / 2 ^ 58) (5764607523034235 / 2 ^ 58 :: real)
              = 5764607523034234 / 2 ^ 58" by simp
  have d: "distributeCredit fourCents centsExample
             = [\<lparr>invoiceId = ''i0'', amount = 0, isFullPayment = True\<rparr>,
                \<lparr>invoiceId = ''i1'', amount = 0, isFullPayment = True\<rparr>,
                \<lparr>invoiceId = ''i2'', amount = 1 / 2 ^ 58, isFullPayment = True\<rparr>]"
    unfolding centsExample_def fourCents_value rnd_cent rnd_two_cents
    by (simp only: distributeCredit.simps Let_def allocation.simps m1 m2 m3
          cents_step1 cents_step2 cents_step3 sub64_self)
  have "0 < fourCents" unfolding fourCents_value by simp
  then show ?thesis by (simp add: allocationsForPayment_def creditState_def d)
qed

subsection \<open>The selector's amount clamp and the credit handlers\<close>

lemma validAmount_in_range:
  "0 \<le> balanceDue row \<Longrightarrow>
   0 \<le> validAmount requested row \<and> validAmount requested row \<le> balanceDue row"
  by (simp add: validAmount_def)

lemma partialAmountRows_paymentAmount:
  "partialAmountRows i requested rows sel = (rows', sel') \<Longrightarrow>
   map paymentAmount rows'
     = map (\<lambda>row. if id' row = i then validAmount requested row else paymentAmount row) rows"
  by (induction rows arbitrary: sel rows' sel') (auto simp: Let_def split: prod.splits if_splits)

lemma Map_set_entries: "set (Map_set k v m) \<subseteq> insert (k, v) (set m)"
  by (induction m) auto

text \<open>
  Every entry of the selection map after the selector's partial-amount handler is an
  entry from before or carries the clamped amount of a row of that invoice.
\<close>

lemma partialAmountRows_entries:
  "partialAmountRows i requested rows sel = (rows', sel') \<Longrightarrow> e \<in> set sel' \<Longrightarrow>
   e \<in> set sel \<or>
   (\<exists>row \<in> set rows. id' row = i \<and>
      e = (i, \<lparr>invoiceId = i, amount = validAmount requested row, isFullPayment = False\<rparr>))"
proof (induction rows arbitrary: sel rows' sel')
  case Nil
  then show ?case by simp
next
  case (Cons row rows)
  show ?case
  proof (cases "id' row = i")
    case False
    then obtain r2 where "partialAmountRows i requested rows sel = (r2, sel')"
      using Cons.prems(1) by (auto split: prod.splits)
    then show ?thesis using Cons.IH Cons.prems(2) by fastforce
  next
    case True
    let ?v = "\<lparr>invoiceId = i, amount = validAmount requested row, isFullPayment = False\<rparr>"
    let ?sel1 = "if Map_has i sel then Map_set i ?v sel else sel"
    obtain r2 where "partialAmountRows i requested rows ?sel1 = (r2, sel')"
      using Cons.prems(1) True by (auto simp: Let_def split: prod.splits if_splits)
    then have "e \<in> set ?sel1 \<or>
       (\<exists>row \<in> set rows. id' row = i \<and>
          e = (i, \<lparr>invoiceId = i, amount = validAmount requested row, isFullPayment = False\<rparr>))"
      using Cons.IH Cons.prems(2) by blast
    moreover have "set ?sel1 \<subseteq> insert (i, ?v) (set sel)"
      using Map_set_entries [of i ?v sel] by auto
    ultimately show ?thesis using True by auto
  qed
qed

lemma InvoicePayment_partialAmount_upper:
  "partialAmount (InvoicePayment_handlePartialAmountChange s v) \<le> InvoicePayment_balanceDue s"
  by (simp add: InvoicePayment_handlePartialAmountChange_def)

lemma handleCreditAmountChange_upper:
  "creditAmountToApply (handleCreditAmountChange s v)
     \<le> min (totalAvailableCredit s) (totalAmount s)"
  by (simp add: handleCreditAmountChange_def)

lemma handleApplyCreditsChange_value:
  "creditAmountToApply (handleApplyCreditsChange s checked)
     = (if checked then min (totalAvailableCredit s) (totalAmount s) else 0)"
  by (simp add: handleApplyCreditsChange_def Let_def totalAvailableCredit_def)

section \<open>Claims\<close>

subsection \<open>C1: the order-sensitivity example\<close>

text \<open>
  C1 (as amended). Applying credit 120 to \<open>[(inv1, 100), (inv2, 50)]\<close> absorbs inv1
  completely (100 of the credit), leaves 20 of credit for inv2 and so reduces inv2 from
  50 to 30: the result is exactly \<open>[(inv2, 30)]\<close>, in input order and with the flag
  of inv2 as it was.
\<close>

theorem C1_order_sensitivity_amended:
  "allocationsForPayment
     (creditState [\<lparr>invoiceId = ''inv1'', amount = 100, isFullPayment = f1\<rparr>,
                   \<lparr>invoiceId = ''inv2'', amount = 50, isFullPayment = f2\<rparr>] 120)
   = [\<lparr>invoiceId = ''inv2'', amount = 30, isFullPayment = f2\<rparr>]"
  by (simp add: allocationsForPayment_def creditState_def sub64_def rnd_numeral rnd_zero)

text \<open>
  Witness for C1: the example with inv1 paid in full and inv2 a partial payment; the
  credit branch of \<open>allocationsForPayment\<close> is the one taken.
\<close>

theorem C1_order_sensitivity_witness:
  "applyCredits (creditState orderExample 120)
   \<and> 0 < creditAmountToApply (creditState orderExample 120)
   \<and> allocationsForPayment (creditState orderExample 120)
       = [\<lparr>invoiceId = ''inv2'', amount = 30, isFullPayment = False\<rparr>]"
  using C1_order_sensitivity_amended [of True False]
  by (simp add: orderExample_def creditState_def)

text \<open>
  C1 as stated fails: the invoices and amounts of the result are not \<open>[(inv2, 20)]\<close>;
  20 is the credit that inv2 absorbs, not the amount that remains on it.
\<close>

theorem C1_order_sensitivity_counterexample:
  "map (\<lambda>alloc. (invoiceId alloc, amount alloc))
     (allocationsForPayment
        (creditState [\<lparr>invoiceId = ''inv1'', amount = 100, isFullPayment = True\<rparr>,
                      \<lparr>invoiceId = ''inv2'', amount = 50, isFullPayment = True\<rparr>] 120))
   \<noteq> [(''inv2'', 20)]"
  by (simp add: allocationsForPayment_def creditState_def sub64_def rnd_numeral rnd_zero)

subsection \<open>C2: the partial-payment amount clamp\<close>

text \<open>
  C2 (the code at the failing input). In the single-invoice flow, with a balance due of
  100, the entered value \<open>-5\<close> is stored as it is: \<open>handlePartialAmountChange\<close> of
  InvoicePayment takes the minimum with the balance and has no lower bound, so the
  stored amount is neither \<open>min (max 0 requested) balanceDue = 0\<close> nor inside
  \<open>[0, balanceDue]\<close>. The selector's handler of the same name clamps at 0
  (\<open>validAmount_in_range\<close>).
\<close>

theorem C2_single_invoice_negative_amount:
  "InvoicePayment_balanceDue
     \<lparr>wiredBalance = Some 100, singlePaymentType = ''partial'', partialAmount = 100\<rparr> = 100
   \<and> partialAmount
       (InvoicePayment_handlePartialAmountChange
          \<lparr>wiredBalance = Some 100, singlePaymentType = ''partial'', partialAmount = 100\<rparr>
          (Num (- 5))) = - 5
   \<and> min (max 0 (or_zero (Num (- 5)))) (100 :: real) = 0"
  by (simp add: InvoicePayment_handlePartialAmountChange_def InvoicePayment_balanceDue_def
        or_zero_def)

subsection \<open>C3: positive amounts in the submitted allocations\<close>

text \<open>
  C3 (as amended). Every allocation returned by \<open>allocationsForPayment\<close> has a
  positive amount provided credit is applied (credits enabled and a positive credit
  amount) or every allocation received from the selector already has a positive amount.
\<close>

theorem C3_positive_amounts_amended:
  assumes "(applyCredits s \<and> 0 < creditAmountToApply s)
           \<or> (\<forall>a \<in> set (invoiceAllocations s). 0 < amount a)"
  shows "\<forall>b \<in> set (allocationsForPayment s). 0 < amount b"
  using assms by (auto simp: allocationsForPayment_def)

text \<open>
  Witness for C3: credit 120 applied to \<open>[(inv1, 100), (inv2, 50)]\<close>; the allocation
  that is returned, \<open>(inv2, 30)\<close>, has a positive amount.
\<close>

theorem C3_positive_amounts_witness:
  "(applyCredits
      (creditState [\<lparr>invoiceId = ''inv1'', amount = 100, isFullPayment = True\<rparr>,
                    \<lparr>invoiceId = ''inv2'', amount = 50, isFullPayment = False\<rparr>] 120)
    \<and> 0 < creditAmountToApply
      (creditState [\<lparr>invoiceId = ''inv1'', amount = 100, isFullPayment = True\<rparr>,
                    \<lparr>invoiceId = ''inv2'', amount = 50, isFullPayment = False\<rparr>] 120))
   \<and> \<lparr>invoiceId = ''inv2'', amount = 30, isFullPayment = False\<rparr>
       \<in> set (allocationsForPayment
           (creditState [\<lparr>invoiceId = ''inv1'', amount = 100, isFullPayment = True\<rparr>,
                         \<lparr>invoiceId = ''inv2'', amount = 50, isFullPayment = False\<rparr>] 120))
   \<and> 0 < amount \<lparr>invoiceId = ''inv2'', amount = 30, isFullPayment = False\<rparr>"
proof -
  let ?s = "creditState [\<lparr>invoiceId = ''inv1'', amount = 100, isFullPayment = True\<rparr>,
                         \<lparr>invoiceId = ''inv2'', amount = 50, isFullPayment = False\<rparr>] 120"
  have h: "(applyCredits ?s \<and> 0 < creditAmountToApply ?s)
           \<or> (\<forall>a \<in> set (invoiceAllocations ?s). 0 < amount a)"
    by (simp add: creditState_def)
  have m: "\<lparr>invoiceId = ''inv2'', amount = 30, isFullPayment = False\<rparr>
             \<in> set (allocationsForPayment ?s)"
    by (simp add: allocationsForPayment_def creditState_def sub64_def rnd_numeral rnd_zero)
  show ?thesis
    using m bspec [OF C3_positive_amounts_amended [OF h] m]
    by (simp add: creditState_def)
qed

text \<open>
  C3 as stated fails when no credit is applied: the list from the selector is returned
  as it is, and a partial payment whose amount was entered as 0 (or as text that is not
  a number) is in it with amount 0.
\<close>

theorem C3_positive_amounts_counterexample:
  "map amount
     (allocationsForPayment
        \<lparr>accountCredits = [], applyCredits = False, creditAmountToApply = 0,
         invoiceAllocations = [\<lparr>invoiceId = ''inv1'', amount = 0, isFullPayment = False\<rparr>],
         totalAmount = 0, invoiceCount = 1\<rparr>) = [0]"
  by (simp add: allocationsForPayment_def)

subsection \<open>C4: the greedy walk\<close>

text \<open>
  C4. With credits enabled and a positive credit amount, \<open>allocationsForPayment\<close> is
  the walk of the specification: position by position, in the given order, the credit
  consumed is the smaller of the remaining-credit counter (which starts at
  \<open>creditAmountToApply\<close>) and the allocation's amount, and it is taken from both.
  The distribution is first come, first served: when no amount is negative, a later
  allocation receives credit only if every earlier one was absorbed completely.
\<close>

theorem C4_greedy_walk:
  assumes "applyCredits s" and "0 < creditAmountToApply s"
  shows "allocationsForPayment s = applyCredit (invoiceAllocations s) (creditAmountToApply s)
    \<and> ((\<forall>a \<in> set (invoiceAllocations s). 0 \<le> amount a) \<longrightarrow>
         (\<forall>i j. i < j \<and> j < length (invoiceAllocations s)
                \<and> 0 < creditConsumed (creditAmountToApply s) (invoiceAllocations s) j
            \<longrightarrow> creditConsumed (creditAmountToApply s) (invoiceAllocations s) i
                  = amount (invoiceAllocations s ! i)))"
proof
  show "allocationsForPayment s = applyCredit (invoiceAllocations s) (creditAmountToApply s)"
    using assms
    by (simp add: allocationsForPayment_def applyCredit_def distributeCredit_walk [symmetric])
next
  have C: "0 \<le> creditAmountToApply s" using assms(2) by simp
  show "(\<forall>a \<in> set (invoiceAllocations s). 0 \<le> amount a) \<longrightarrow>
         (\<forall>i j. i < j \<and> j < length (invoiceAllocations s)
                \<and> 0 < creditConsumed (creditAmountToApply s) (invoiceAllocations s) j
            \<longrightarrow> creditConsumed (creditAmountToApply s) (invoiceAllocations s) i
                  = amount (invoiceAllocations s ! i))"
    using greedy_first_come [OF C] by blast
qed

text \<open>
  Witness for C4: credit 120 on \<open>[(inv1, 100), (inv2, 50)]\<close>. The second allocation
  receives credit (20), and the first was absorbed completely (100 of 100).
\<close>

theorem C4_greedy_walk_witness:
  "applyCredits (creditState orderExample 120)
   \<and> 0 < creditAmountToApply (creditState orderExample 120)
   \<and> list_all (\<lambda>a. 0 \<le> amount a) orderExample
   \<and> (0 :: nat) < Suc 0 \<and> Suc 0 < length orderExample
   \<and> 0 < creditConsumed 120 orderExample (Suc 0)
   \<and> allocationsForPayment (creditState orderExample 120) = applyCredit orderExample 120
   \<and> creditConsumed 120 orderExample 0 = amount (orderExample ! 0)"
proof -
  let ?s = "creditState orderExample 120"
  have h1: "applyCredits ?s" by (simp add: creditState_def)
  have h2: "0 < creditAmountToApply ?s" by (simp add: creditState_def)
  have h3: "\<forall>a \<in> set orderExample. 0 \<le> amount a" by (simp add: orderExample_def)
  have h4: "0 < creditConsumed 120 orderExample (Suc 0)"
    by (simp add: creditConsumed_def orderExample_def sub64_def rnd_numeral)
  have h5: "Suc 0 < length orderExample" by (simp add: orderExample_def)
  note walk = C4_greedy_walk [OF h1 h2]
  have e1: "allocationsForPayment ?s = applyCredit orderExample 120"
    using walk by (simp add: creditState_def)
  have "\<forall>i j. i < j \<and> j < length orderExample \<and> 0 < creditConsumed 120 orderExample j
          \<longrightarrow> creditConsumed 120 orderExample i = amount (orderExample ! i)"
    using walk h3 by (simp add: creditState_def)
  then have "0 < Suc 0 \<and> Suc 0 < length orderExample \<and> 0 < creditConsumed 120 orderExample (Suc 0)
          \<longrightarrow> creditConsumed 120 orderExample 0 = amount (orderExample ! 0)"
    by blast
  then have e2: "creditConsumed 120 orderExample 0 = amount (orderExample ! 0)"
    using h4 h5 by simp
  show ?thesis using h1 h2 h3 h4 h5 e1 e2 by (simp add: list_all_iff)
qed

subsection \<open>C5: the allocation builder\<close>

text \<open>
  C5 (as amended). For every selection map, \<open>notifySelectionChange\<close> emits an
  allocation list (and an invoice count) as long as the map has entries, and for the empty
  map the empty list and total 0. The total is the amounts added from left to right in
  the program's numbers; it equals the sum of the amounts of all entries whenever none of
  these additions is rounded.
\<close>

theorem C5_builder_amended:
  "(exactSum 0 (map amount (Map_values (selectedInvoices s)))
      \<longrightarrow> detail_totalAmount (notifySelectionChange s)
            = sum_list (map (\<lambda>entry. amount (snd entry)) (selectedInvoices s)))
   \<and> length (allocations (notifySelectionChange s)) = Map_size (selectedInvoices s)
   \<and> detail_invoiceCount (notifySelectionChange s) = Map_size (selectedInvoices s)
   \<and> allocations (notifySelectionChange (s\<lparr>selectedInvoices := []\<rparr>)) = []
   \<and> detail_totalAmount (notifySelectionChange (s\<lparr>selectedInvoices := []\<rparr>)) = 0"
proof -
  have "exactSum 0 (map amount (Map_values (selectedInvoices s)))
      \<longrightarrow> detail_totalAmount (notifySelectionChange s)
            = sum_list (map (\<lambda>entry. amount (snd entry)) (selectedInvoices s))"
    by (simp add: notifySelectionChange_def Let_def foldl_amount_sum) (simp add: Map_values_def comp_def)
  then show ?thesis
    by (simp add: notifySelectionChange_def Let_def Map_values_def Map_size_def)
qed

text \<open>
  Witness for C5, the scenario of the specification: invA in full at 200 and invB partial
  at 30. Neither addition is rounded and the total is 230.
\<close>

theorem C5_builder_witness:
  "exactSum 0 (map amount (Map_values (selectedInvoices scenarioSelector)))
   \<and> detail_totalAmount (notifySelectionChange scenarioSelector) = 230
   \<and> sum_list (map (\<lambda>entry. amount (snd entry)) (selectedInvoices scenarioSelector)) = 230"
proof -
  have h: "exactSum 0 (map amount (Map_values (selectedInvoices scenarioSelector)))"
    by (simp add: scenarioSelector_def scenarioExample_def Map_values_def add64_def rnd_numeral
          finite_double_numeral)
  have "detail_totalAmount (notifySelectionChange scenarioSelector)
          = sum_list (map (\<lambda>entry. amount (snd entry)) (selectedInvoices scenarioSelector))"
    using conjunct1 [OF C5_builder_amended [of scenarioSelector]] h by blast
  moreover have "sum_list (map (\<lambda>entry. amount (snd entry)) (selectedInvoices scenarioSelector)) = 230"
    by (simp add: scenarioSelector_def scenarioExample_def)
  ultimately show ?thesis using h by simp
qed

text \<open>
  C5 as stated fails for the amounts 0.1 and 0.2: the emitted total is the double
  0.30000000000000004, which is \<open>1351079888211149 / 2 ^ 52\<close>, and the sum of the two
  amounts is \<open>10808639105689191 / 2 ^ 55\<close>.
\<close>

theorem C5_builder_counterexample:
  "detail_totalAmount (notifySelectionChange tenthsExample) = 1351079888211149 / 2 ^ 52
   \<and> sum_list (map (\<lambda>entry. amount (snd entry)) (selectedInvoices tenthsExample))
       = 10808639105689191 / 2 ^ 55
   \<and> detail_totalAmount (notifySelectionChange tenthsExample)
       \<noteq> sum_list (map (\<lambda>entry. amount (snd entry)) (selectedInvoices tenthsExample))"
proof -
  have t: "detail_totalAmount (notifySelectionChange tenthsExample) = 1351079888211149 / 2 ^ 52"
    unfolding notifySelectionChange_def tenthsExample_def Map_values_def Let_def
      rnd_tenth rnd_two_tenths
    by (simp only: InvoiceSelector.simps selectionchange.simps allocation.simps list.map snd_conv
          foldl.simps tenths_step1 tenths_step2)
  have u: "sum_list (map (\<lambda>entry. amount (snd entry)) (selectedInvoices tenthsExample))
             = 10808639105689191 / 2 ^ 55"
    unfolding tenthsExample_def rnd_tenth rnd_two_tenths by simp
  show ?thesis unfolding t u by simp
qed

subsection \<open>C6: the stored credit amount\<close>

text \<open>
  C6 (the code at the failing input). With 50 of credit available and a total of 100,
  the entered credit amount \<open>-5\<close> is stored as \<open>-5\<close>: \<open>handleCreditAmountChange\<close>
  bounds the value from above only. The amount to pay, \<open>amountAfterCredits\<close>, is then
  105, more than the total of the allocations.
\<close>

theorem C6_negative_credit_stored:
  "creditAmountToApply
     (handleCreditAmountChange
        \<lparr>accountCredits = [50], applyCredits = True, creditAmountToApply = 50,
         invoiceAllocations = [\<lparr>invoiceId = ''inv1'', amount = 100, isFullPayment = True\<rparr>],
         totalAmount = 100, invoiceCount = 1\<rparr> (Num (- 5))) = - 5
   \<and> amountAfterCredits
       (handleCreditAmountChange
          \<lparr>accountCredits = [50], applyCredits = True, creditAmountToApply = 50,
           invoiceAllocations = [\<lparr>invoiceId = ''inv1'', amount = 100, isFullPayment = True\<rparr>],
           totalAmount = 100, invoiceCount = 1\<rparr> (Num (- 5))) = 105"
  by (simp add: handleCreditAmountChange_def amountAfterCredits_def totalAvailableCredit_def
        or_zero_def add64_def sub64_def rnd_numeral)

subsection \<open>C7: credit that covers everything\<close>

text \<open>
  C7 (as amended). For every allocation sequence without negative amounts and every
  credit \<open>C > 0\<close> with \<open>C\<close> at least the sum of the amounts, \<open>allocationsForPayment\<close>
  with credits enabled and \<open>creditAmountToApply = C\<close> returns the empty sequence,
  provided no subtraction of the walk is rounded.
\<close>

theorem C7_full_cover_amended:
  assumes "applyCredits s" and "0 < creditAmountToApply s"
    and "\<forall>a \<in> set (invoiceAllocations s). 0 \<le> amount a"
    and "sum_list (map amount (invoiceAllocations s)) \<le> creditAmountToApply s"
    and "exactWalk (creditAmountToApply s) (invoiceAllocations s)"
  shows "allocationsForPayment s = []"
proof -
  have "\<forall>b \<in> set (distributeCredit (creditAmountToApply s) (invoiceAllocations s)). amount b = 0"
    using distributeCredit_covered [OF assms(5) _ assms(4)] assms(3) by blast
  then have "filter (\<lambda>alloc. amount alloc > 0)
               (distributeCredit (creditAmountToApply s) (invoiceAllocations s)) = []"
    by (simp add: filter_empty_conv)
  then show ?thesis using assms(1,2) by (simp add: allocationsForPayment_def)
qed

text \<open>
  Witness for C7, the scenario of the specification: credit 250 on
  \<open>[(invA, 200, full), (invB, 30, partial)]\<close>, total 230, leaves nothing to pay; the
  differences 50 and 20 of the walk are exact.
\<close>

theorem C7_full_cover_witness:
  "applyCredits (creditState scenarioExample 250)
   \<and> 0 < creditAmountToApply (creditState scenarioExample 250)
   \<and> list_all (\<lambda>a. 0 \<le> amount a) (invoiceAllocations (creditState scenarioExample 250))
   \<and> sum_list (map amount (invoiceAllocations (creditState scenarioExample 250)))
        \<le> creditAmountToApply (creditState scenarioExample 250)
   \<and> exactWalk (creditAmountToApply (creditState scenarioExample 250))
        (invoiceAllocations (creditState scenarioExample 250))
   \<and> allocationsForPayment (creditState scenarioExample 250) = []"
proof -
  let ?s = "creditState scenarioExample 250"
  have h1: "applyCredits ?s" by (simp add: creditState_def)
  have h2: "0 < creditAmountToApply ?s" by (simp add: creditState_def)
  have h3: "\<forall>a \<in> set (invoiceAllocations ?s). 0 \<le> amount a"
    by (simp add: creditState_def scenarioExample_def)
  have h4: "sum_list (map amount (invoiceAllocations ?s)) \<le> creditAmountToApply ?s"
    by (simp add: creditState_def scenarioExample_def)
  have h5: "exactWalk (creditAmountToApply ?s) (invoiceAllocations ?s)"
    by (simp add: creditState_def scenarioExample_def sub64_def rnd_numeral rnd_zero
          finite_double_numeral finite_double_zero)
  show ?thesis
    using h1 h2 h3 h4 h5 C7_full_cover_amended [OF h1 h2 h3 h4 h5] by (simp add: list_all_iff)
qed

text \<open>
  C7 as stated fails in two ways. For credit 0, a selection whose only entry has amount
  0 has sum 0, credit 0 is at least that sum, and the guard on a credit that is not
  positive returns the sequence as it is. For the amounts 0.01, 0.01 and 0.02 with
  credit 0.04, which is their sum (as doubles, exactly), the remaining credit is rounded down on the way and
  \<open>2 ^ - 58\<close> stays on the last allocation.
\<close>

theorem C7_full_cover_counterexample:
  "sum_list (map amount [\<lparr>invoiceId = ''inv1'', amount = 0, isFullPayment = False\<rparr>]) \<le> 0
   \<and> allocationsForPayment
       (creditState [\<lparr>invoiceId = ''inv1'', amount = 0, isFullPayment = False\<rparr>] 0)
     \<noteq> []
   \<and> sum_list (map amount centsExample) \<le> fourCents
   \<and> 0 < fourCents
   \<and> allocationsForPayment (creditState centsExample fourCents)
       = [\<lparr>invoiceId = ''i2'', amount = 1 / 2 ^ 58, isFullPayment = True\<rparr>]"
proof -
  have "sum_list (map amount centsExample) \<le> fourCents"
    unfolding cents_sum fourCents_value by simp
  moreover have "0 < fourCents" unfolding fourCents_value by simp
  moreover have "allocationsForPayment
       (creditState [\<lparr>invoiceId = ''inv1'', amount = 0, isFullPayment = False\<rparr>] 0) \<noteq> []"
    by (simp add: allocationsForPayment_def creditState_def)
  ultimately show ?thesis using cents_walk by simp
qed

text \<open>
  Why the amended C7 asks for amounts that are not negative: a negative amount later in
  the sequence lowers the sum without leaving credit for the allocations before it.
\<close>

lemma full_cover_negative_amount_example:
  "allocationsForPayment
     (creditState [\<lparr>invoiceId = ''a'', amount = 5, isFullPayment = True\<rparr>,
                   \<lparr>invoiceId = ''b'', amount = - 10, isFullPayment = True\<rparr>] 1)
   = [\<lparr>invoiceId = ''a'', amount = 4, isFullPayment = True\<rparr>]"
  by (simp add: allocationsForPayment_def creditState_def sub64_def rnd_numeral rnd_zero)

subsection \<open>C8: what credit distribution leaves alone\<close>

text \<open>
  C8. The allocations returned by \<open>allocationsForPayment\<close> are, in order, input
  allocations with their \<open>invoiceId\<close> and \<open>isFullPayment\<close> as in the input: every
  returned allocation is an input allocation in which at most the amount was replaced.
\<close>

theorem C8_flags_preserved:
  "subseq (map frame (allocationsForPayment s)) (map frame (invoiceAllocations s))
   \<and> (\<forall>b \<in> set (allocationsForPayment s).
         \<exists>a \<in> set (invoiceAllocations s). b = a\<lparr>amount := amount b\<rparr>)"
proof
  let ?D = "distributeCredit (creditAmountToApply s) (invoiceAllocations s)"
  have "subseq (map frame (filter (\<lambda>alloc. amount alloc > 0) ?D)) (map frame ?D)"
    by (rule subseq_map) simp
  then show "subseq (map frame (allocationsForPayment s)) (map frame (invoiceAllocations s))"
    by (simp add: allocationsForPayment_def distributeCredit_frame)
next
  show "\<forall>b \<in> set (allocationsForPayment s).
          \<exists>a \<in> set (invoiceAllocations s). b = a\<lparr>amount := amount b\<rparr>"
  proof
    fix b
    assume b: "b \<in> set (allocationsForPayment s)"
    show "\<exists>a \<in> set (invoiceAllocations s). b = a\<lparr>amount := amount b\<rparr>"
    proof (cases "\<not> applyCredits s \<or> creditAmountToApply s \<le> 0")
      case True
      then have "b \<in> set (invoiceAllocations s)"
        using b by (simp add: allocationsForPayment_def)
      moreover have "b = b\<lparr>amount := amount b\<rparr>" by simp
      ultimately show ?thesis by blast
    next
      case False
      then have "b \<in> set (distributeCredit (creditAmountToApply s) (invoiceAllocations s))"
        using b by (simp add: allocationsForPayment_def)
      then show ?thesis by (rule distributeCredit_member)
    qed
  qed
qed

text \<open>
  Witness for C8: credit 120 on \<open>[(inv1, 100, full), (inv2, 50, partial)]\<close>. The
  surviving allocation \<open>(inv2, 30, partial)\<close> is the input's \<open>(inv2, 50, partial)\<close>
  with only the amount replaced.
\<close>

theorem C8_flags_preserved_witness:
  "\<lparr>invoiceId = ''inv2'', amount = 30, isFullPayment = False\<rparr>
     \<in> set (allocationsForPayment (creditState orderExample 120))
   \<and> (\<exists>a \<in> set (invoiceAllocations (creditState orderExample 120)).
         \<lparr>invoiceId = ''inv2'', amount = 30, isFullPayment = False\<rparr> = a\<lparr>amount := 30\<rparr>)"
proof -
  have m: "\<lparr>invoiceId = ''inv2'', amount = 30, isFullPayment = False\<rparr>
             \<in> set (allocationsForPayment (creditState orderExample 120))"
    by (simp add: allocationsForPayment_def creditState_def orderExample_def sub64_def
          rnd_numeral rnd_zero)
  show ?thesis
    using m bspec [OF conjunct2 [OF C8_flags_preserved [of "creditState orderExample 120"]] m]
    by simp
qed

subsection \<open>C9: select, then deselect\<close>

text \<open>
  C9. For every state of the selector and every invoice it lists that is not selected
  (its id is not in the selection map: the handlers write the row's flag and the map
  together), a select event followed by a deselect event for that invoice raises nothing
  and returns the selection map to what it was, entries and order; the invoice has no
  entry afterwards, not even one with amount 0.
\<close>

theorem C9_select_deselect:
  assumes "invoiceId' \<in> set (map id' (invoices s))"
    and "\<not> Map_has invoiceId' (selectedInvoices s)"
  shows "\<exists>s2 ev. selectThenDeselect s invoiceId' = Inr (s2, ev)
           \<and> selectedInvoices s2 = selectedInvoices s
           \<and> \<not> Map_has invoiceId' (selectedInvoices s2)"
proof -
  obtain r where r: "find (\<lambda>r. id' r = invoiceId')
      (map (\<lambda>r. if id' r = invoiceId' then r\<lparr>selected := True\<rparr> else r) (invoices s)) = Some r"
    using find_listed [OF assms(1)] by blast
  show ?thesis
    using assms(2)
    by (simp add: selectThenDeselect_def handleInvoiceSelect_def Let_def r
          Map_delete_set_absent)
qed

text \<open>
  Witness for C9: two rows, inv1 selected in full, inv2 not selected. Selecting and
  deselecting inv2 gives back the map that holds inv1 alone.
\<close>

theorem C9_select_deselect_witness:
  "''inv2'' \<in> set (map id' (invoices selectorExample))
   \<and> \<not> Map_has ''inv2'' (selectedInvoices selectorExample)
   \<and> (\<exists>s2 ev. selectThenDeselect selectorExample ''inv2'' = Inr (s2, ev)
         \<and> selectedInvoices s2 = selectedInvoices selectorExample
         \<and> \<not> Map_has ''inv2'' (selectedInvoices s2))"
proof -
  have h1: "''inv2'' \<in> set (map id' (invoices selectorExample))"
    by (simp add: selectorExample_def)
  have h2: "\<not> Map_has ''inv2'' (selectedInvoices selectorExample)"
    by (simp add: selectorExample_def Map_has_def)
  show ?thesis
    using h1 h2 C9_select_deselect [OF h1 h2] by blast
qed

subsection \<open>C10: credit conservation\<close>

text \<open>
  C10 (as amended). With credits enabled, a credit \<open>C > 0\<close> and no negative amount in
  the input, the amounts returned by \<open>allocationsForPayment\<close> add up to the input's
  sum less \<open>min C sum\<close>, provided no subtraction of the walk is rounded.
\<close>

theorem C10_credit_conservation_amended:
  assumes "applyCredits s" and "0 < creditAmountToApply s"
    and "\<forall>a \<in> set (invoiceAllocations s). 0 \<le> amount a"
    and "exactWalk (creditAmountToApply s) (invoiceAllocations s)"
  shows "sum_list (map amount (allocationsForPayment s))
           = sum_list (map amount (invoiceAllocations s))
             - min (creditAmountToApply s) (sum_list (map amount (invoiceAllocations s)))"
proof -
  let ?D = "distributeCredit (creditAmountToApply s) (invoiceAllocations s)"
  have "sum_list (map amount (filter (\<lambda>alloc. amount alloc > 0) ?D)) = sum_list (map amount ?D)"
    by (rule sum_filter_positive) (rule distributeCredit_nonneg)
  also have "\<dots> = sum_list (map amount (invoiceAllocations s))
             - min (creditAmountToApply s) (sum_list (map amount (invoiceAllocations s)))"
    using assms(2,3) by (intro distributeCredit_sum [OF assms(4)]) simp_all
  finally show ?thesis using assms(1,2) by (simp add: allocationsForPayment_def)
qed

text \<open>
  Witness for C10: credit 120 on \<open>[(inv1, 100), (inv2, 50)]\<close>; the differences of the
  walk (0, 20, 30, 0) are exact and 30 is left of 150.
\<close>

theorem C10_credit_conservation_witness:
  "applyCredits (creditState orderExample 120)
   \<and> 0 < creditAmountToApply (creditState orderExample 120)
   \<and> list_all (\<lambda>a. 0 \<le> amount a) (invoiceAllocations (creditState orderExample 120))
   \<and> exactWalk (creditAmountToApply (creditState orderExample 120))
        (invoiceAllocations (creditState orderExample 120))
   \<and> sum_list (map amount (allocationsForPayment (creditState orderExample 120))) = 150 - 120"
proof -
  let ?s = "creditState orderExample 120"
  have h1: "applyCredits ?s" by (simp add: creditState_def)
  have h2: "0 < creditAmountToApply ?s" by (simp add: creditState_def)
  have h3: "\<forall>a \<in> set (invoiceAllocations ?s). 0 \<le> amount a"
    by (simp add: creditState_def orderExample_def)
  have h4: "exactWalk (creditAmountToApply ?s) (invoiceAllocations ?s)"
    by (simp add: creditState_def orderExample_def sub64_def rnd_numeral rnd_zero
          finite_double_numeral finite_double_zero)
  show ?thesis
    using h1 h2 h3 h4 C10_credit_conservation_amended [OF h1 h2 h3 h4]
    by (simp add: creditState_def orderExample_def list_all_iff sub64_def rnd_numeral rnd_zero
          finite_double_numeral finite_double_zero)
qed

text \<open>
  C10 as stated fails for the amounts 0.01, 0.01 and 0.02 with credit 0.04: the credit is
  the sum of the amounts, so nothing should be left, and the returned amounts add up to
  \<open>2 ^ - 58\<close>.
\<close>

theorem C10_credit_conservation_counterexample:
  "sum_list (map amount (allocationsForPayment (creditState centsExample fourCents)))
     = 1 / 2 ^ 58
   \<and> sum_list (map amount centsExample)
       - min fourCents (sum_list (map amount centsExample)) = 0"
proof -
  have "sum_list (map amount (allocationsForPayment (creditState centsExample fourCents)))
          = 1 / 2 ^ 58"
    unfolding cents_walk by simp
  moreover have "sum_list (map amount centsExample)
       - min fourCents (sum_list (map amount centsExample)) = 0"
    unfolding cents_sum fourCents_value by simp
  ultimately show ?thesis by simp
qed

end
